theory Spec2Isabelle
  imports Complex_Main
begin

section \<open>Numbers, errors and control flow\<close>

text \<open>
  The notebooks \<^verbatim>\<open>docs/resummator_dipole.ipynb\<close> and \<^verbatim>\<open>docs/resummator_lhe.ipynb\<close>
  drive the package \<^verbatim>\<open>ngl_resum\<close>. Python floats are modelled as reals (no rounding).
  A rapidity and an angular distance can be infinite (a light-like vector along the
  beam axis), so these two are extended reals.
\<close>

datatype xreal = Fin real | PInf | NInf

fun xabs :: "xreal \<Rightarrow> xreal" where
  "xabs (Fin a) = Fin \<bar>a\<bar>"
| "xabs PInf = PInf"
| "xabs NInf = PInf"

text \<open>\<open>xlt x c\<close> is Python's \<^verbatim>\<open>x < c\<close>, \<open>xgt x c\<close> is \<^verbatim>\<open>x > c\<close> and \<open>xge x c\<close> is
  \<^verbatim>\<open>x >= c\<close>, for a finite constant \<open>c\<close>.\<close>

fun xlt :: "xreal \<Rightarrow> real \<Rightarrow> bool" where
  "xlt (Fin a) c = (a < c)"
| "xlt PInf c = False"
| "xlt NInf c = True"

fun xgt :: "xreal \<Rightarrow> real \<Rightarrow> bool" where
  "xgt (Fin a) c = (a > c)"
| "xgt PInf c = True"
| "xgt NInf c = False"

fun xge :: "xreal \<Rightarrow> real \<Rightarrow> bool" where
  "xge (Fin a) c = (a \<ge> c)"
| "xge PInf c = True"
| "xge NInf c = False"

fun xle :: "xreal \<Rightarrow> real \<Rightarrow> bool" where
  "xle (Fin a) c = (a \<le> c)"
| "xle PInf c = False"
| "xle NInf c = True"

text \<open>\<^verbatim>\<open>np.sqrt\<close> of a negative number is \<^verbatim>\<open>nan\<close> (here \<open>None\<close>), and every comparison
  with \<^verbatim>\<open>nan\<close> is false.\<close>

definition np_sqrt :: "real \<Rightarrow> real option" where
  "np_sqrt x = (if x < 0 then None else Some (sqrt x))"

datatype pyerror =
  TypeError | ZeroDivisionError | NameError | AttributeError | IndexError
  | ValueError

text \<open>A block of statements either returns a boolean early, raises, or goes on with a
  value.\<close>

datatype 'a flow = Return bool | Raise pyerror | Continue 'a

fun andThen :: "'a flow \<Rightarrow> ('a \<Rightarrow> 'b flow) \<Rightarrow> 'b flow" where
  "andThen (Return b) f = Return b"
| "andThen (Raise err) f = Raise err"
| "andThen (Continue a) f = f a"

section \<open>Four-vectors and events\<close>

text \<open>\<^verbatim>\<open>ngl.FourVector(e, px, py, pz)\<close>. The field \<open>energy\<close> is the attribute \<^verbatim>\<open>e\<close>.\<close>

record FourVector =
  energy :: real
  px :: real
  py :: real
  pz :: real

text \<open>Modelled from the spec: the sum of two four-vectors and their Minkowski product
  (spec 4.1; class \<^verbatim>\<open>FourVector\<close> of \<^verbatim>\<open>ngl_resum\<close>, whose operators \<^verbatim>\<open>+\<close> and \<^verbatim>\<open>*\<close> the
  notebook uses).\<close>

definition plus4 :: "FourVector \<Rightarrow> FourVector \<Rightarrow> FourVector" where
  "plus4 a b = \<lparr>energy = energy a + energy b, px = px a + px b,
                py = py a + py b, pz = pz a + pz b\<rparr>"

definition dot4 :: "FourVector \<Rightarrow> FourVector \<Rightarrow> real" where
  "dot4 a b = energy a * energy b - px a * px b - py a * py b - pz a * pz b"

text \<open>The derived quantities of a four-vector that the notebooks read
  (\<^verbatim>\<open>v.pT\<close>, \<^verbatim>\<open>v.eT\<close>, \<^verbatim>\<open>v.rap\<close>, \<^verbatim>\<open>v.R2(w)\<close>, \<^verbatim>\<open>v / s\<close>) are computed by
  \<^verbatim>\<open>ngl_resum\<close>; the notebook code is verified for every choice of them.\<close>

record kinematics =
  pT :: "FourVector \<Rightarrow> real"
  eT :: "FourVector \<Rightarrow> real"
  rap :: "FourVector \<Rightarrow> xreal"
  R2 :: "FourVector \<Rightarrow> FourVector \<Rightarrow> xreal"
  over :: "FourVector \<Rightarrow> real \<Rightarrow> pyerror + FourVector"

text \<open>An \<^verbatim>\<open>ngl.Event\<close> as the notebook reads it: the weight and, for each particle role,
  either \<^verbatim>\<open>None\<close> or the list of the four-vectors with that role.\<close>

record Event =
  weight :: real
  intermediateTop :: "FourVector list option"
  outgoingBottom :: "FourVector list option"
  outgoingElectron :: "FourVector list option"
  outgoingENeutrino :: "FourVector list option"
  outgoingMuon :: "FourVector list option"
  outgoingMNeutrino :: "FourVector list option"

section \<open>\<^verbatim>\<open>validEvent\<close> (resummator\_lhe.ipynb, cell 3)\<close>

text \<open>The loop over the electrons: each is appended to \<^verbatim>\<open>momentaLeptonsOut\<close> and cut on.\<close>

fun electronLoop :: "kinematics \<Rightarrow> FourVector list \<Rightarrow> FourVector list \<Rightarrow> FourVector list flow" where
  "electronLoop K [] momentaLeptonsOut = Continue momentaLeptonsOut"
| "electronLoop K (i # rest) momentaLeptonsOut =
     (let out = momentaLeptonsOut @ [i] in
      if eT K i < 25 then Return False
      else if xgt (xabs (rap K i)) 2.47 then Return False
      else electronLoop K rest out)"

fun muonLoop :: "kinematics \<Rightarrow> FourVector list \<Rightarrow> FourVector list \<Rightarrow> FourVector list flow" where
  "muonLoop K [] momentaLeptonsOut = Continue momentaLeptonsOut"
| "muonLoop K (i # rest) momentaLeptonsOut =
     (let out = momentaLeptonsOut @ [i] in
      if pT K i < 20 then Return False
      else if xgt (xabs (rap K i)) 2.5 then Return False
      else muonLoop K rest out)"

text \<open>\<^verbatim>\<open>for i in ev.outgoingENeutrino: momentaNeutrinoOut.append(i)\<close>; iterating over
  \<^verbatim>\<open>None\<close> raises.\<close>

definition neutrinoLoop :: "FourVector list option \<Rightarrow> FourVector list \<Rightarrow> FourVector list flow" where
  "neutrinoLoop role momentaNeutrinoOut =
     (case role of None \<Rightarrow> Raise TypeError | Some ns \<Rightarrow> Continue (momentaNeutrinoOut @ ns))"

text \<open>The state after the two lepton blocks: \<^verbatim>\<open>momentaLeptonsOut\<close>,
  \<^verbatim>\<open>momentaNeutrinoOut\<close> and \<^verbatim>\<open>electronmuonevent\<close>.\<close>

type_synonym leptons = "FourVector list \<times> FourVector list \<times> bool"

definition electronBlock :: "kinematics \<Rightarrow> Event \<Rightarrow> leptons flow" where
  "electronBlock K ev =
     (case outgoingElectron ev of
        None \<Rightarrow> Continue ([], [], False)
      | Some es \<Rightarrow>
          andThen (electronLoop K es []) (\<lambda>ls.
          andThen (neutrinoLoop (outgoingENeutrino ev) []) (\<lambda>ns.
          Continue (ls, ns, True))))"

definition muonBlock :: "kinematics \<Rightarrow> Event \<Rightarrow> leptons \<Rightarrow> leptons flow" where
  "muonBlock K ev s =
     (case s of (ls, ns, electronmuonevent) \<Rightarrow>
        (case outgoingMuon ev of
           None \<Rightarrow> Continue (ls, ns, False)
         | Some ms \<Rightarrow>
             andThen (muonLoop K ms ls) (\<lambda>ls'.
             andThen (neutrinoLoop (outgoingMNeutrino ev) ns) (\<lambda>ns'.
             Continue (ls', ns', electronmuonevent)))))"

text \<open>The number of leptons and neutrinos, the dilepton mass, the missing momentum and the
  visible transverse momentum. The indices 0 and 1 are read after the lengths are known
  to be 2.\<close>

definition globalCuts :: "kinematics \<Rightarrow> FourVector list \<Rightarrow> leptons \<Rightarrow> unit flow" where
  "globalCuts K bottoms s =
     (case s of (momentaLeptonsOut, momentaNeutrinoOut, electronmuonevent) \<Rightarrow>
        if length momentaLeptonsOut \<noteq> 2 then Return False
        else if length momentaNeutrinoOut \<noteq> 2 then Return False
        else
          let ll = plus4 (momentaLeptonsOut ! 0) (momentaLeptonsOut ! 1);
              dileptonmass = np_sqrt (dot4 ll ll);
              missingMomentum = plus4 (momentaNeutrinoOut ! 0) (momentaNeutrinoOut ! 1)
          in
            if \<not> electronmuonevent then
              (if eT K missingMomentum < 40 then Return False
               else if (case dileptonmass of None \<Rightarrow> False
                        | Some m \<Rightarrow> m < 15 \<or> \<bar>m - 91\<bar> < 10) then Return False
               else Continue ())
            else
              (if pT K (momentaLeptonsOut ! 0) + pT K (momentaLeptonsOut ! 1)
                    + pT K (bottoms ! 0) + pT K (bottoms ! 1) < 130
               then Return False else Continue ()))"

fun separationLoop :: "kinematics \<Rightarrow> FourVector \<Rightarrow> FourVector list \<Rightarrow> unit flow" where
  "separationLoop K i [] = Continue ()"
| "separationLoop K i (j # rest) =
     (if xlt (R2 K i j) (0.4 ^ 2) then Return False else separationLoop K i rest)"

fun bottomLoop :: "kinematics \<Rightarrow> FourVector list \<Rightarrow> FourVector list \<Rightarrow> unit flow" where
  "bottomLoop K [] momentaLeptonsOut = Continue ()"
| "bottomLoop K (i # rest) momentaLeptonsOut =
     (if pT K i < 25 then Return False
      else if xgt (xabs (rap K i)) 2.4 then Return False
      else andThen (separationLoop K i momentaLeptonsOut)
             (\<lambda>_. bottomLoop K rest momentaLeptonsOut))"

text \<open>Falling through every check reaches the final \<^verbatim>\<open>return True\<close>.\<close>

fun finish :: "unit flow \<Rightarrow> pyerror + bool" where
  "finish (Return b) = Inr b"
| "finish (Raise err) = Inl err"
| "finish (Continue _) = Inr True"

definition validEvent :: "kinematics \<Rightarrow> Event \<Rightarrow> pyerror + bool" where
  "validEvent K ev =
     (case intermediateTop ev of
        None \<Rightarrow> Inr False
      | Some tops \<Rightarrow>
     (case outgoingBottom ev of
        None \<Rightarrow> Inr False
      | Some bottoms \<Rightarrow>
          if outgoingElectron ev = None \<and> outgoingMuon ev = None then Inr False
          else if length tops \<noteq> 2 then Inr False
          else if length bottoms \<noteq> 2 then Inr False
          else finish
            (andThen (electronBlock K ev) (\<lambda>s1.
             andThen (muonBlock K ev s1) (\<lambda>s2.
             andThen (globalCuts K bottoms s2) (\<lambda>_.
             bottomLoop K bottoms (fst s2)))))))"

section \<open>The outside region\<close>

text \<open>Modelled from the spec: class \<^verbatim>\<open>OutsideRegion\<close> of \<^verbatim>\<open>ngl_resum\<close> (spec 4.4 and 9),
  which is not part of the notebooks. An instance holds the event it was built with (or
  \<^verbatim>\<open>None\<close>) and, once the caller has assigned one, the function bound to its attribute
  \<^verbatim>\<open>outside\<close>; the bound function receives the instance's event as \<^verbatim>\<open>self.event\<close>. Without an
  assignment the stub of the class is in effect. Spec 9 describes the stub of the source
  as "silently behaving as always-false", and the dipole notebook says of it that it "does
  not do anything without the user actually telling it what to do": the stub answers
  \<^verbatim>\<open>False\<close> and raises nothing.\<close>

record OutsideRegion =
  event :: "Event option"
  patched :: "(Event option \<Rightarrow> FourVector \<Rightarrow> pyerror + bool) option"

definition OutsideRegion_new :: "Event option \<Rightarrow> OutsideRegion" where
  "OutsideRegion_new ev = \<lparr>event = ev, patched = None\<rparr>"

text \<open>\<^verbatim>\<open>outsideRegion.outside = f.__get__(outsideRegion, ngl.OutsideRegion)\<close>\<close>

definition rebind :: "OutsideRegion \<Rightarrow> (Event option \<Rightarrow> FourVector \<Rightarrow> pyerror + bool) \<Rightarrow> OutsideRegion" where
  "rebind region f = region\<lparr>patched := Some f\<rparr>"

text \<open>\<^verbatim>\<open>outsideRegion.outside(v)\<close>\<close>

definition outside :: "OutsideRegion \<Rightarrow> FourVector \<Rightarrow> pyerror + bool" where
  "outside region v =
     (case patched region of None \<Rightarrow> Inr False | Some f \<Rightarrow> f (event region) v)"

text \<open>\<^verbatim>\<open>_outside\<close> of resummator\_dipole.ipynb (cell 8): the rapidity gap.\<close>

definition outside_dipole :: "kinematics \<Rightarrow> Event option \<Rightarrow> FourVector \<Rightarrow> bool" where
  "outside_dipole K self v =
     (let rapRangeMax = 0.8; rapRangeMin = 0.0 in
      xlt (xabs (rap K v)) rapRangeMax \<and> xge (xabs (rap K v)) rapRangeMin)"

text \<open>\<^verbatim>\<open>_outside\<close> of resummator\_lhe.ipynb (cell 4): the rapidity gap without the two jets
  around the bottom quarks. Reading \<^verbatim>\<open>self.event.outgoingBottom[k]\<close> raises when the event,
  the role or the element is missing.\<close>

definition outside_lhe :: "kinematics \<Rightarrow> Event option \<Rightarrow> FourVector \<Rightarrow> pyerror + bool" where
  "outside_lhe K self v =
     (case self of
        None \<Rightarrow> Inl AttributeError
      | Some ev \<Rightarrow>
     (case outgoingBottom ev of
        None \<Rightarrow> Inl TypeError
      | Some [] \<Rightarrow> Inl IndexError
      | Some (b0 # rest) \<Rightarrow>
     (case over K b0 (energy b0) of
        Inl err \<Rightarrow> Inl err
      | Inr jetaxis1 \<Rightarrow>
     (case rest of
        [] \<Rightarrow> Inl IndexError
      | b1 # _ \<Rightarrow>
     (case over K b1 (energy b1) of
        Inl err \<Rightarrow> Inl err
      | Inr jetaxis2 \<Rightarrow>
          (let jetRadius = 0.4; rapRangeMax = 0.8; rapRangeMin = 0.0 in
           Inr (xgt (R2 K v jetaxis1) (jetRadius ^ 2) \<and>
                xgt (R2 K v jetaxis2) (jetRadius ^ 2) \<and>
                xlt (xabs (rap K v)) rapRangeMax \<and>
                xge (xabs (rap K v)) rapRangeMin)))))))"

section \<open>Histograms\<close>

text \<open>Modelled from the spec: class \<^verbatim>\<open>Hist\<close> of \<^verbatim>\<open>ngl_resum\<close> (spec 3 and 4.5), which is not
  part of the notebooks: \<open>nbins\<close> bins over \<open>[0, tmax]\<close>, each with an accumulated value and a
  sum of squares, and the flag of error tracking.\<close>

record Hist =
  h_nbins :: nat
  h_tmax :: real
  errorHistCalc :: bool
  entries :: "real list"
  squaredEntries :: "real list"

text \<open>\<^verbatim>\<open>ngl.Hist(nbins, tmax, errorHistCalc=flag)\<close>\<close>

definition Hist_new :: "nat \<Rightarrow> real \<Rightarrow> bool \<Rightarrow> Hist" where
  "Hist_new n t flag =
     \<lparr>h_nbins = n, h_tmax = t, errorHistCalc = flag,
      entries = replicate n 0, squaredEntries = replicate n 0\<rparr>"

definition sameShape :: "Hist \<Rightarrow> Hist \<Rightarrow> bool" where
  "sameShape a b =
     (h_nbins a = h_nbins b \<and> h_tmax a = h_tmax b \<and>
      length (entries a) = length (entries b) \<and>
      length (squaredEntries a) = length (squaredEntries b))"

text \<open>Modelled from the spec: \<^verbatim>\<open>a += b\<close>, the element-wise sum of two histograms of identical
  shape (spec 4.5, merge); another shape is refused.\<close>

definition Hist_iadd :: "Hist \<Rightarrow> Hist \<Rightarrow> pyerror + Hist" where
  "Hist_iadd a b =
     (if sameShape a b
      then Inr (a\<lparr>entries := map2 (+) (entries a) (entries b),
                 squaredEntries := map2 (+) (squaredEntries a) (squaredEntries b)\<rparr>)
      else Inl ValueError)"

text \<open>Modelled from the spec: \<^verbatim>\<open>a /= n\<close> for a scalar \<open>n\<close> other than zero, the division of every
  bin by \<open>n\<close> (spec 4.5; the notebook divides its histogram "to get the Monte Carlo
  estimate"). The notebook's histogram is built without error tracking; what the division
  does to the sums of squares is not modelled, and they are left as they are. The cell
  below does not reach it with zero.\<close>

definition Hist_idiv :: "Hist \<Rightarrow> real \<Rightarrow> Hist" where
  "Hist_idiv a n = a\<lparr>entries := map (\<lambda>x. x / n) (entries a)\<rparr>"

section \<open>The shower\<close>

text \<open>The constants of the notebooks.\<close>

record config =
  nbins :: nat
  tmax :: real
  nsh :: nat
  showerCutoff :: real

definition config_lhe :: config where
  "config_lhe = \<lparr>nbins = 10, tmax = 0.1, nsh = 20, showerCutoff = 6\<rparr>"

definition config_dipole :: config where
  "config_dipole = \<lparr>nbins = 10, tmax = 0.1, nsh = 1000, showerCutoff = 6\<rparr>"

text \<open>What the notebooks read of an \<^verbatim>\<open>ngl.Shower\<close> after \<^verbatim>\<open>shower.shower()\<close>.\<close>

record Shower =
  resLL :: Hist
  ngl1Loop :: real
  ngl2Loop :: real

text \<open>\<^verbatim>\<open>ngl.Shower(ev, outsideRegion, nsh, nbins, tmax, showerCutoff)\<close> followed by
  \<^verbatim>\<open>shower.shower()\<close>, as a function of the state \<open>'r\<close> of the random source. The driver
  below is verified for every such function.\<close>

type_synonym 'r showerFn =
  "config \<Rightarrow> Event \<Rightarrow> OutsideRegion \<Rightarrow> 'r \<Rightarrow> pyerror + (Shower \<times> 'r)"

section \<open>The event loop (resummator\_lhe.ipynb, cells 5 to 12)\<close>

text \<open>The variables of the notebook, the lines the loop has printed, and the state of the
  random source. The variable \<^verbatim>\<open>shower\<close> is unbound until the first valid event.\<close>

record 'r driver =
  numberEvents :: nat
  numberValidEvents :: nat
  eventWeight :: real
  fullResultLL :: Hist
  fullNGL1Loop :: real
  fullNGL2Loop :: real
  shower :: "Shower option"
  printed :: "string list"
  rng :: "'r"

record 'r params =
  kin :: kinematics
  cfg :: config
  runShower :: "'r showerFn"

text \<open>Cells 5, 6 and 7.\<close>

definition initial :: "config \<Rightarrow> 'r \<Rightarrow> 'r driver" where
  "initial c r =
     \<lparr>numberEvents = 0, numberValidEvents = 0, eventWeight = 0,
      fullResultLL = Hist_new (nbins c) (tmax c) False,
      fullNGL1Loop = 0, fullNGL2Loop = 0, shower = None, printed = [], rng = r\<rparr>"

text \<open>
  \<^verbatim>\<open>if not eventWeight > 0: eventWeight=ev.weight\<close>
  \<^verbatim>\<open>if not eventWeight==ev.weight: print("Warning: events not of equal weight!")\<close>
\<close>

definition warning :: string where
  "warning = ''Warning: events not of equal weight!''"

definition weightCheck :: "'r driver \<Rightarrow> Event \<Rightarrow> 'r driver" where
  "weightCheck st ev =
     (let st1 = (if \<not> eventWeight st > 0 then st\<lparr>eventWeight := weight ev\<rparr> else st)
      in if \<not> eventWeight st1 = weight ev
         then st1\<lparr>printed := printed st1 @ [warning]\<rparr> else st1)"

text \<open>The body of \<^verbatim>\<open>if validEvent(ev):\<close>.\<close>

definition showerBlock :: "'r params \<Rightarrow> 'r driver \<Rightarrow> Event \<Rightarrow> pyerror + 'r driver" where
  "showerBlock P st ev =
     (let st1 = st\<lparr>numberValidEvents := numberValidEvents st + 1\<rparr>;
          outsideRegion = rebind (OutsideRegion_new (Some ev)) (outside_lhe (kin P))
      in case runShower P (cfg P) ev outsideRegion (rng st1) of
           Inl err \<Rightarrow> Inl err
         | Inr (sh, r') \<Rightarrow>
        (case Hist_iadd (fullResultLL st1) (resLL sh) of
           Inl err \<Rightarrow> Inl err
         | Inr h \<Rightarrow>
             Inr (st1\<lparr>fullResultLL := h,
                      fullNGL1Loop := fullNGL1Loop st1 + ngl1Loop sh,
                      fullNGL2Loop := fullNGL2Loop st1 + ngl2Loop sh,
                      shower := Some sh, rng := r'\<rparr>)))"

text \<open>One iteration of \<^verbatim>\<open>for event in evtFile\<close>, from the \<^verbatim>\<open>ngl.Event\<close> built for the
  event on.\<close>

definition loopBody :: "'r params \<Rightarrow> 'r driver \<Rightarrow> Event \<Rightarrow> pyerror + 'r driver" where
  "loopBody P st ev =
     (let st1 = st\<lparr>numberEvents := numberEvents st + 1\<rparr>;
          st2 = weightCheck st1 ev
      in case validEvent (kin P) ev of
           Inl err \<Rightarrow> Inl err
         | Inr valid \<Rightarrow> if valid then showerBlock P st2 ev else Inr st2)"

fun eventLoop :: "'r params \<Rightarrow> 'r driver \<Rightarrow> Event list \<Rightarrow> pyerror + 'r driver" where
  "eventLoop P st [] = Inr st"
| "eventLoop P st (ev # evtFile) =
     (case loopBody P st ev of
        Inl err \<Rightarrow> Inl err
      | Inr st' \<Rightarrow> eventLoop P st' evtFile)"

text \<open>Cell 9: the three divisions by \<^verbatim>\<open>numberValidEvents\<close>. With no valid event the cell
  raises: \<^verbatim>\<open>fullNGL1Loop/=numberValidEvents\<close> divides the float \<^verbatim>\<open>0.\<close> by the integer 0.\<close>

definition normalize :: "'r driver \<Rightarrow> pyerror + 'r driver" where
  "normalize st =
     (if numberValidEvents st = 0 then Inl ZeroDivisionError
      else Inr (st\<lparr>fullResultLL := Hist_idiv (fullResultLL st) (real (numberValidEvents st)),
                   fullNGL1Loop := fullNGL1Loop st / real (numberValidEvents st),
                   fullNGL2Loop := fullNGL2Loop st / real (numberValidEvents st)\<rparr>))"

text \<open>Python's \<^verbatim>\<open>round(x, n)\<close> on reals: to the nearest multiple of \<open>10\<^sup>-\<^sup>n\<close>, a tie to the even
  one.\<close>

definition py_round :: "real \<Rightarrow> nat \<Rightarrow> real" where
  "py_round x n =
     (let s = x * 10 ^ n; f = \<lfloor>s\<rfloor>; d = s - of_int f
      in of_int (if d < 1 / 2 then f else if d > 1 / 2 then f + 1
                 else if even f then f else f + 1) / 10 ^ n)"

text \<open>Cells 11 and 12: \<^verbatim>\<open>round(shower.ngl1Loop,4)\<close> and
  \<^verbatim>\<open>round(shower.ngl2Loop+0.5*shower.ngl1Loop**2,4)\<close>.\<close>

definition displayOneLoop :: "'r driver \<Rightarrow> pyerror + real" where
  "displayOneLoop st =
     (case shower st of None \<Rightarrow> Inl NameError
      | Some sh \<Rightarrow> Inr (py_round (ngl1Loop sh) 4))"

definition displayTwoLoop :: "'r driver \<Rightarrow> pyerror + real" where
  "displayTwoLoop st =
     (case shower st of None \<Rightarrow> Inl NameError
      | Some sh \<Rightarrow> Inr (py_round (ngl2Loop sh + 0.5 * (ngl1Loop sh) ^ 2) 4))"

section \<open>Notions used to state the properties\<close>

definition roleList :: "FourVector list option \<Rightarrow> FourVector list" where
  "roleList role = (case role of None \<Rightarrow> [] | Some vs \<Rightarrow> vs)"

text \<open>The outgoing charged leptons and the outgoing neutrinos an event holds, and the
  neutrinos \<open>validEvent\<close> collects: those of a flavour whose charged lepton is present.\<close>

definition chargedLeptons :: "Event \<Rightarrow> FourVector list" where
  "chargedLeptons ev = roleList (outgoingElectron ev) @ roleList (outgoingMuon ev)"

definition neutrinos :: "Event \<Rightarrow> FourVector list" where
  "neutrinos ev = roleList (outgoingENeutrino ev) @ roleList (outgoingMNeutrino ev)"

definition collectedNeutrinos :: "Event \<Rightarrow> FourVector list" where
  "collectedNeutrinos ev =
     (if outgoingElectron ev = None then [] else roleList (outgoingENeutrino ev)) @
     (if outgoingMuon ev = None then [] else roleList (outgoingMNeutrino ev))"

definition bottomCuts :: "kinematics \<Rightarrow> FourVector list \<Rightarrow> FourVector \<Rightarrow> bool" where
  "bottomCuts K ls i =
     (pT K i \<ge> 25 \<and> xle (xabs (rap K i)) 2.4 \<and> list_all (\<lambda>j. xge (R2 K i j) (0.4 ^ 2)) ls)"

text \<open>An event without the particles of the first five checks of \<open>validEvent\<close>.\<close>

definition rolesMissing :: "Event \<Rightarrow> bool" where
  "rolesMissing ev =
     (intermediateTop ev = None \<or> outgoingBottom ev = None \<or>
      (outgoingElectron ev = None \<and> outgoingMuon ev = None) \<or>
      length (roleList (intermediateTop ev)) \<noteq> 2 \<or>
      length (roleList (outgoingBottom ev)) \<noteq> 2)"

text \<open>The \<^verbatim>\<open>OutsideRegion\<close> the loop builds for a valid event.\<close>

definition regionOf :: "kinematics \<Rightarrow> Event \<Rightarrow> OutsideRegion" where
  "regionOf K ev = rebind (OutsideRegion_new (Some ev)) (outside_lhe K)"

text \<open>The showers of a run of the loop, in order: one for each valid event, each started
  in the state the random source has reached.\<close>

fun showered :: "'r params \<Rightarrow> 'r \<Rightarrow> Event list \<Rightarrow> Shower list" where
  "showered P r [] = []"
| "showered P r (ev # evtFile) =
     (case validEvent (kin P) ev of
        Inl err \<Rightarrow> []
      | Inr valid \<Rightarrow>
          if valid then
            (case runShower P (cfg P) ev (regionOf (kin P) ev) r of
               Inl err \<Rightarrow> []
             | Inr (sh, r') \<Rightarrow> sh # showered P r' evtFile)
          else showered P r evtFile)"

text \<open>The value of bin \<open>i\<close> summed over a list of showers.\<close>

definition binSum :: "Shower list \<Rightarrow> nat \<Rightarrow> real" where
  "binSum shs i = (\<Sum>sh\<leftarrow>shs. entries (resLL sh) ! i)"

section \<open>The dipole notebook (resummator\_dipole.ipynb)\<close>

definition mkFourVector :: "real \<Rightarrow> real \<Rightarrow> real \<Rightarrow> real \<Rightarrow> FourVector" where
  "mkFourVector e0 x y z = \<lparr>energy = e0, px = x, py = y, pz = z\<rparr>"

text \<open>Cell 5 (with \<^verbatim>\<open>b = 0.9\<close>) and cell 10.\<close>

definition dipole :: "FourVector list" where
  "dipole = [mkFourVector 1 0 0 0.9, mkFourVector 1 0 0 (- 0.9)]"

definition fvOut :: FourVector where
  "fvOut = mkFourVector 1 0 1 0"

definition fvIn :: FourVector where
  "fvIn = mkFourVector 1 0 0 1"

text \<open>Cells 7 and 9: the region of the dipole notebook, built without an event.\<close>

definition outsideRegion_dipole :: "kinematics \<Rightarrow> OutsideRegion" where
  "outsideRegion_dipole K =
     rebind (OutsideRegion_new None) (\<lambda>self v. Inr (outside_dipole K self v))"

section \<open>Reference kinematics\<close>

text \<open>Modelled from the spec: the derived quantities of class \<^verbatim>\<open>FourVector\<close> of \<^verbatim>\<open>ngl_resum\<close>
  (spec 3 and 4.1: transverse momentum, transverse energy, rapidity, \<^verbatim>\<open>R2\<close> as the squared
  difference of rapidity plus the squared difference of azimuth, scalar division), by their
  usual definitions, for momenta with positive energy not below \<open>|pz|\<close>. The rapidity of a
  light-like vector along the beam axis is infinite.\<close>

definition pT_std :: "FourVector \<Rightarrow> real" where
  "pT_std v = sqrt ((px v)\<^sup>2 + (py v)\<^sup>2)"

definition eT_std :: "FourVector \<Rightarrow> real" where
  "eT_std v = sqrt ((energy v)\<^sup>2 - (pz v)\<^sup>2)"

definition rapidity :: "FourVector \<Rightarrow> xreal" where
  "rapidity v =
     (if energy v - pz v = 0 then PInf
      else if energy v + pz v = 0 then NInf
      else Fin (ln ((energy v + pz v) / (energy v - pz v)) / 2))"

definition azimuth :: "FourVector \<Rightarrow> real" where
  "azimuth v =
     (if px v > 0 then arctan (py v / px v)
      else if px v < 0 then
        (if py v \<ge> 0 then arctan (py v / px v) + pi else arctan (py v / px v) - pi)
      else if py v > 0 then pi / 2
      else if py v < 0 then - pi / 2
      else 0)"

definition deltaPhi :: "FourVector \<Rightarrow> FourVector \<Rightarrow> real" where
  "deltaPhi v w =
     (let d = azimuth v - azimuth w
      in if d > pi then d - 2 * pi else if d < - pi then d + 2 * pi else d)"

definition R2_std :: "FourVector \<Rightarrow> FourVector \<Rightarrow> xreal" where
  "R2_std v w =
     (case (rapidity v, rapidity w) of
        (Fin y1, Fin y2) \<Rightarrow> Fin ((y1 - y2)\<^sup>2 + (deltaPhi v w)\<^sup>2)
      | _ \<Rightarrow> PInf)"

definition over_std :: "FourVector \<Rightarrow> real \<Rightarrow> pyerror + FourVector" where
  "over_std v s =
     (if s = 0 then Inl ZeroDivisionError
      else Inr \<lparr>energy = energy v / s, px = px v / s, py = py v / s, pz = pz v / s\<rparr>)"

definition kinematics_std :: kinematics where
  "kinematics_std =
     \<lparr>pT = pT_std, eT = eT_std, rap = rapidity, R2 = R2_std, over = over_std\<rparr>"

section \<open>Worked examples\<close>

text \<open>Events used in the worked examples below: a dileptonic top-pair event with two
  electrons that passes every cut; the same event with two more muon neutrinos and no
  muon; an event without intermediate tops; and the first one with other weights.\<close>

definition ev_ee :: Event where
  "ev_ee =
     \<lparr>weight = 3.37407,
      intermediateTop = Some [mkFourVector 175 0 0 0, mkFourVector 175 0 0 0],
      outgoingBottom = Some [mkFourVector 50 50 0 0, mkFourVector 50 (- 50) 0 0],
      outgoingElectron = Some [mkFourVector 30 0 30 0, mkFourVector 30 0 (- 30) 0],
      outgoingENeutrino = Some [mkFourVector 25 0 25 0, mkFourVector 25 0 25 0],
      outgoingMuon = None,
      outgoingMNeutrino = None\<rparr>"

definition ev_fourNeutrinos :: Event where
  "ev_fourNeutrinos =
     ev_ee\<lparr>outgoingMNeutrino := Some [mkFourVector 10 0 10 0, mkFourVector 10 0 (- 10) 0]\<rparr>"

definition ev_noTop :: Event where
  "ev_noTop = ev_ee\<lparr>intermediateTop := None\<rparr>"

text \<open>A deterministic stand-in for the shower, with a counter as the state of the random
  source: every bin gets \<open>1\<close>, the one-loop value is minus the
  counter's successor and the two-loop value is the counter.\<close>

definition shower_stub :: "nat showerFn" where
  "shower_stub c ev region r =
     Inr (\<lparr>resLL = (Hist_new (nbins c) (tmax c) True)\<lparr>entries := replicate (nbins c) 1\<rparr>,
           ngl1Loop = - real (Suc r), ngl2Loop = real r\<rparr>, Suc r)"

definition config_small :: config where
  "config_small = \<lparr>nbins = 2, tmax = 0.1, nsh = 2, showerCutoff = 6\<rparr>"

definition params_stub :: "nat params" where
  "params_stub = \<lparr>kin = kinematics_std, cfg = config_small, runShower = shower_stub\<rparr>"

text \<open>States and showers that the worked examples reach.\<close>

definition stub_hist :: "bool \<Rightarrow> real \<Rightarrow> Hist" where
  "stub_hist flag x =
     \<lparr>h_nbins = 2, h_tmax = 0.1, errorHistCalc = flag, entries = [x, x],
      squaredEntries = [0, 0]\<rparr>"

definition stub_shower :: "real \<Rightarrow> real \<Rightarrow> real \<Rightarrow> Shower" where
  "stub_shower x l1 l2 = \<lparr>resLL = stub_hist True x, ngl1Loop = l1, ngl2Loop = l2\<rparr>"

definition stub_state :: "nat \<Rightarrow> nat \<Rightarrow> real \<Rightarrow> real \<Rightarrow> real \<Rightarrow> Shower \<Rightarrow> nat \<Rightarrow> nat driver" where
  "stub_state n nv x l1 l2 sh r =
     \<lparr>numberEvents = n, numberValidEvents = nv, eventWeight = 3.37407,
      fullResultLL = stub_hist False x, fullNGL1Loop = l1, fullNGL2Loop = l2,
      shower = Some sh, printed = [], rng = r\<rparr>"

definition ev_noTop_weighted :: "real \<Rightarrow> Event" where
  "ev_noTop_weighted w = ev_noTop\<lparr>weight := w\<rparr>"

section \<open>Facts about \<open>validEvent\<close>\<close>

lemma not_xlt_xge: "(\<not> xlt x c) = xge x c"
  by (cases x) auto

lemma not_xgt_xle: "(\<not> xgt x c) = xle x c"
  by (cases x) auto

lemma electronLoop_Continue:
  "electronLoop K es acc = Continue out \<Longrightarrow> out = acc @ es"
  by (induction es arbitrary: acc) (force simp: Let_def split: if_splits)+

lemma electronLoop_Return: "electronLoop K es acc = Return b \<Longrightarrow> b = False"
  by (induction es arbitrary: acc) (auto simp: Let_def split: if_splits)

lemma muonLoop_Continue:
  "muonLoop K ms acc = Continue out \<Longrightarrow> out = acc @ ms"
  by (induction ms arbitrary: acc) (force simp: Let_def split: if_splits)+

lemma separationLoop_Continue:
  "separationLoop K i ls = Continue u \<Longrightarrow> list_all (\<lambda>j. xge (R2 K i j) (0.4 ^ 2)) ls"
  by (induction ls) (auto simp: not_xlt_xge split: if_splits)

lemma andThen_Continue:
  "andThen m f = Continue y \<Longrightarrow> \<exists>x. m = Continue x \<and> f x = Continue y"
  by (cases m) auto

lemma bottomLoop_Continue:
  "bottomLoop K bs ls = Continue u \<Longrightarrow> list_all (bottomCuts K ls) bs"
proof (induction bs)
  case Nil
  then show ?case by simp
next
  case (Cons i rest)
  from Cons.prems have a: "\<not> pT K i < 25" and b: "\<not> xgt (xabs (rap K i)) 2.4"
    and c: "andThen (separationLoop K i ls) (\<lambda>_. bottomLoop K rest ls) = Continue u"
    by (auto split: if_splits)
  from c obtain x where s: "separationLoop K i ls = Continue x" and r: "bottomLoop K rest ls = Continue u"
    by (auto dest: andThen_Continue)
  from a b separationLoop_Continue[OF s] have "bottomCuts K ls i"
    by (simp add: bottomCuts_def not_xgt_xle)
  with Cons.IH[OF r] show ?case by simp
qed

lemma separationLoop_Return: "separationLoop K i ls = Return b \<Longrightarrow> b = False"
  by (induction ls) (auto split: if_splits)

lemma bottomLoop_Return: "bottomLoop K bs ls = Return b \<Longrightarrow> b = False"
proof (induction bs)
  case Nil then show ?case by simp
next
  case (Cons i rest)
  show ?case
  proof (cases "separationLoop K i ls")
    case (Return x)
    with Cons.prems separationLoop_Return[OF Return] show ?thesis by (auto split: if_splits)
  next
    case (Raise x) with Cons.prems show ?thesis by (auto split: if_splits)
  next
    case (Continue x) with Cons show ?thesis by (auto split: if_splits)
  qed
qed

lemma electronBlock_Continue:
  "electronBlock K ev = Continue (ls, ns, emu) \<Longrightarrow>
     ls = roleList (outgoingElectron ev) \<and>
     ns = (if outgoingElectron ev = None then [] else roleList (outgoingENeutrino ev)) \<and>
     emu = (outgoingElectron ev \<noteq> None)"
  by (auto simp: electronBlock_def roleList_def neutrinoLoop_def
      split: option.splits dest!: andThen_Continue electronLoop_Continue)

lemma muonBlock_Continue:
  "muonBlock K ev (ls, ns, emu) = Continue (ls', ns', emu') \<Longrightarrow>
     ls' = ls @ roleList (outgoingMuon ev) \<and>
     ns' = ns @ (if outgoingMuon ev = None then [] else roleList (outgoingMNeutrino ev)) \<and>
     emu' = (emu \<and> outgoingMuon ev \<noteq> None)"
  by (auto simp: muonBlock_def roleList_def neutrinoLoop_def
      split: option.splits dest!: andThen_Continue muonLoop_Continue)

lemma globalCuts_Continue:
  "globalCuts K bs (ls, ns, emu) = Continue u \<Longrightarrow> length ls = 2 \<and> length ns = 2"
  by (auto simp: globalCuts_def Let_def split: if_splits)

lemma finish_True: "finish m = Inr True \<Longrightarrow> (\<exists>u. m = Continue u) \<or> m = Return True"
  by (cases m) auto


lemma globalCuts_Return: "globalCuts K bs s = Return b \<Longrightarrow> b = False"
  by (cases s) (auto simp: globalCuts_def Let_def split: if_splits)

lemma electronBlock_Return: "electronBlock K ev = Return b \<Longrightarrow> b = False"
  by (cases "outgoingElectron ev"; cases "outgoingENeutrino ev")
     (auto simp: electronBlock_def neutrinoLoop_def
       elim!: andThen.elims dest: electronLoop_Return)

lemma muonLoop_Return: "muonLoop K ms acc = Return b \<Longrightarrow> b = False"
  by (induction ms arbitrary: acc) (auto simp: Let_def split: if_splits)

lemma muonBlock_Return: "muonBlock K ev s = Return b \<Longrightarrow> b = False"
  by (cases s; cases "outgoingMuon ev"; cases "outgoingMNeutrino ev")
     (auto simp: muonBlock_def neutrinoLoop_def
       elim!: andThen.elims dest: muonLoop_Return)

lemma validEvent_True:
  assumes "validEvent K ev = Inr True"
  shows "intermediateTop ev \<noteq> None \<and> length (roleList (intermediateTop ev)) = 2 \<and>
         outgoingBottom ev \<noteq> None \<and> length (roleList (outgoingBottom ev)) = 2 \<and>
         length (chargedLeptons ev) = 2 \<and> length (collectedNeutrinos ev) = 2 \<and>
         list_all (bottomCuts K (chargedLeptons ev)) (roleList (outgoingBottom ev))"
proof -
  from assms obtain tops bottoms where t: "intermediateTop ev = Some tops"
    and b: "outgoingBottom ev = Some bottoms"
    by (auto simp: validEvent_def split: option.splits)
  let ?chain = "andThen (electronBlock K ev) (\<lambda>s1.
             andThen (muonBlock K ev s1) (\<lambda>s2.
             andThen (globalCuts K bottoms s2) (\<lambda>_.
             bottomLoop K bottoms (fst s2))))"
  from assms t b have lt: "length tops = 2" and lb: "length bottoms = 2"
    and f: "finish ?chain = Inr True"
    by (auto simp: validEvent_def split: if_splits)
  have noRet: "?chain \<noteq> Return True"
  proof
    assume r: "?chain = Return True"
    show False
    proof (cases "electronBlock K ev")
      case (Return x) with r electronBlock_Return[OF Return] show False by simp
    next
      case (Raise x) with r show False by simp
    next
      case (Continue s1)
      note c1 = this
      show False
      proof (cases "muonBlock K ev s1")
        case (Return x) with r c1 muonBlock_Return[OF Return] show False by simp
      next
        case (Raise x) with r c1 show False by simp
      next
        case (Continue s2)
        note c2 = this
        show False
        proof (cases "globalCuts K bottoms s2")
          case (Return x) with r c1 c2 globalCuts_Return[OF Return] show False by simp
        next
          case (Raise x) with r c1 c2 show False by simp
        next
          case (Continue u)
          with r c1 c2 have "bottomLoop K bottoms (fst s2) = Return True" by simp
          from bottomLoop_Return[OF this] show False by simp
        qed
      qed
    qed
  qed
  with finish_True[OF f] obtain u where "?chain = Continue u" by auto
  then obtain s1 s2 w where c1: "electronBlock K ev = Continue s1"
    and c2: "muonBlock K ev s1 = Continue s2"
    and c3: "globalCuts K bottoms s2 = Continue w"
    and c4: "bottomLoop K bottoms (fst s2) = Continue u"
    by (auto dest!: andThen_Continue)
  obtain ls ns emu where s1: "s1 = (ls, ns, emu)" by (cases s1) auto
  obtain ls' ns' emu' where s2: "s2 = (ls', ns', emu')" by (cases s2) auto
  from electronBlock_Continue[OF c1[unfolded s1]] muonBlock_Continue[OF c2[unfolded s1 s2]]
  have ls': "ls' = chargedLeptons ev" and ns': "ns' = collectedNeutrinos ev"
    by (auto simp: chargedLeptons_def collectedNeutrinos_def)
  from globalCuts_Continue[OF c3[unfolded s2]] bottomLoop_Continue[OF c4] t b lt lb
  show ?thesis by (simp add: ls' ns' s2 roleList_def)
qed

section \<open>Facts about the loop\<close>

lemma weightCheck_fields:
  "numberEvents (weightCheck st ev) = numberEvents st"
  "numberValidEvents (weightCheck st ev) = numberValidEvents st"
  "fullResultLL (weightCheck st ev) = fullResultLL st"
  "fullNGL1Loop (weightCheck st ev) = fullNGL1Loop st"
  "fullNGL2Loop (weightCheck st ev) = fullNGL2Loop st"
  "shower (weightCheck st ev) = shower st"
  "rng (weightCheck st ev) = rng st"
  by (simp_all add: weightCheck_def Let_def)

lemma showerBlock_Inr:
  assumes "showerBlock P st ev = Inr st'"
  shows "\<exists>sh r'. runShower P (cfg P) ev (regionOf (kin P) ev) (rng st) = Inr (sh, r') \<and>
           Hist_iadd (fullResultLL st) (resLL sh) = Inr (fullResultLL st') \<and>
           st' = st\<lparr>numberValidEvents := numberValidEvents st + 1,
                    fullResultLL := fullResultLL st',
                    fullNGL1Loop := fullNGL1Loop st + ngl1Loop sh,
                    fullNGL2Loop := fullNGL2Loop st + ngl2Loop sh,
                    shower := Some sh, rng := r'\<rparr>"
  using assms
  by (auto simp: showerBlock_def regionOf_def Let_def split: sum.splits prod.splits)

lemma loopBody_valid:
  "validEvent (kin P) ev = Inr True \<Longrightarrow>
   loopBody P st ev = showerBlock P (weightCheck (st\<lparr>numberEvents := numberEvents st + 1\<rparr>) ev) ev"
  by (simp add: loopBody_def Let_def)

lemma loopBody_invalid:
  "validEvent (kin P) ev = Inr False \<Longrightarrow>
   loopBody P st ev = Inr (weightCheck (st\<lparr>numberEvents := numberEvents st + 1\<rparr>) ev)"
  by (simp add: loopBody_def Let_def)

lemma rolesMissing_invalid: "rolesMissing ev \<Longrightarrow> validEvent K ev = Inr False"
  by (auto simp: rolesMissing_def validEvent_def roleList_def split: option.splits)

lemma showerBlock_ignores:
  "showerBlock P (st\<lparr>eventWeight := a, printed := p\<rparr>) ev =
   map_sum id (\<lambda>s. s\<lparr>eventWeight := a, printed := p\<rparr>) (showerBlock P st ev)"
  by (auto simp: showerBlock_def Let_def split: sum.splits prod.splits)

lemma showerBlock_keeps:
  "showerBlock P st ev = Inr st' \<Longrightarrow> printed st' = printed st \<and> eventWeight st' = eventWeight st \<and> numberEvents st' = numberEvents st"
  by (auto simp: showerBlock_def Let_def split: sum.splits prod.splits)

lemma loopBody_nonpositive:
  assumes "eventWeight st \<le> 0" "weight ev \<le> 0" "loopBody P st ev = Inr st'"
  shows "printed st' = printed st \<and> eventWeight st' \<le> 0"
proof -
  let ?w = "st\<lparr>numberEvents := numberEvents st + 1\<rparr>"
  have a: "weightCheck ?w ev = ?w\<lparr>eventWeight := weight ev\<rparr>"
    using assms(1) by (simp add: weightCheck_def Let_def)
  from assms(3) a have "st' = ?w\<lparr>eventWeight := weight ev\<rparr> \<or> showerBlock P (?w\<lparr>eventWeight := weight ev\<rparr>) ev = Inr st'"
    by (auto simp: loopBody_def Let_def split: sum.splits if_splits)
  then show ?thesis using assms(2) by (auto dest: showerBlock_keeps)
qed

lemma eventLoop_nonpositive:
  "eventWeight st \<le> 0 \<Longrightarrow> \<forall>ev\<in>set evs. weight ev \<le> 0 \<Longrightarrow> eventLoop P st evs = Inr st' \<Longrightarrow>
     printed st' = printed st \<and> eventWeight st' \<le> 0"
proof (induction evs arbitrary: st)
  case Nil then show ?case by simp
next
  case (Cons ev evs)
  from Cons.prems(3) obtain s where s: "loopBody P st ev = Inr s" and r: "eventLoop P s evs = Inr st'"
    by (auto split: sum.splits)
  from loopBody_nonpositive[OF Cons.prems(1) _ s] Cons.prems(2)
  have "printed s = printed st" "eventWeight s \<le> 0" by auto
  with Cons.IH[OF _ _ r] Cons.prems(2) show ?case by auto
qed

section \<open>Facts about the accumulation\<close>

lemma Hist_iadd_entries:
  assumes "Hist_iadd a b = Inr h"
  shows "length (entries h) = length (entries a) \<and> errorHistCalc h = errorHistCalc a \<and>
         h_nbins h = h_nbins a \<and> h_tmax h = h_tmax a \<and>
         (\<forall>i < length (entries a). entries h ! i = entries a ! i + entries b ! i)"
  using assms by (auto simp: Hist_iadd_def sameShape_def split: if_splits)

lemma binSum_Cons: "binSum (sh # shs) i = entries (resLL sh) ! i + binSum shs i"
  by (simp add: binSum_def)

lemma binSum_Nil: "binSum [] i = 0"
  by (simp add: binSum_def)

lemma loopBody_step:
  assumes "loopBody P st ev = Inr st'"
  shows "(validEvent (kin P) ev = Inr False \<and> showered P (rng st) (ev # evs) = showered P (rng st') evs \<and>
            numberValidEvents st' = numberValidEvents st \<and> fullResultLL st' = fullResultLL st \<and>
            fullNGL1Loop st' = fullNGL1Loop st \<and> fullNGL2Loop st' = fullNGL2Loop st \<and> shower st' = shower st)
       \<or> (\<exists>sh. validEvent (kin P) ev = Inr True \<and> showered P (rng st) (ev # evs) = sh # showered P (rng st') evs \<and>
            numberValidEvents st' = numberValidEvents st + 1 \<and>
            Hist_iadd (fullResultLL st) (resLL sh) = Inr (fullResultLL st') \<and>
            fullNGL1Loop st' = fullNGL1Loop st + ngl1Loop sh \<and>
            fullNGL2Loop st' = fullNGL2Loop st + ngl2Loop sh \<and> shower st' = Some sh)"
proof -
  let ?s = "weightCheck (st\<lparr>numberEvents := numberEvents st + 1\<rparr>) ev"
  from assms obtain valid where v: "validEvent (kin P) ev = Inr valid"
    by (auto simp: loopBody_def Let_def split: sum.splits)
  show ?thesis
  proof (cases valid)
    case False
    with v assms have "st' = ?s" by (simp add: loopBody_invalid)
    with v False show ?thesis by (simp add: weightCheck_fields)
  next
    case True
    with v assms have "showerBlock P ?s ev = Inr st'" by (simp add: loopBody_valid)
    from showerBlock_Inr[OF this] obtain sh r' where
      r: "runShower P (cfg P) ev (regionOf (kin P) ev) (rng ?s) = Inr (sh, r')"
      and h: "Hist_iadd (fullResultLL ?s) (resLL sh) = Inr (fullResultLL st')"
      and e: "st' = ?s\<lparr>numberValidEvents := numberValidEvents ?s + 1,
                    fullResultLL := fullResultLL st',
                    fullNGL1Loop := fullNGL1Loop ?s + ngl1Loop sh,
                    fullNGL2Loop := fullNGL2Loop ?s + ngl2Loop sh,
                    shower := Some sh, rng := r'\<rparr>"
      by blast
    have f1: "fullNGL1Loop st' = fullNGL1Loop ?s + ngl1Loop sh" by (subst e) simp
    have f2: "fullNGL2Loop st' = fullNGL2Loop ?s + ngl2Loop sh" by (subst e) simp
    have f3: "numberValidEvents st' = numberValidEvents ?s + 1" by (subst e) simp
    have f4: "shower st' = Some sh" by (subst e) simp
    have f5: "rng st' = r'" by (subst e) simp
    from r f5 v True have "showered P (rng st) (ev # evs) = sh # showered P (rng st') evs"
      by (simp add: weightCheck_fields)
    with v True h f1 f2 f3 f4 show ?thesis by (auto simp: weightCheck_fields)
  qed
qed

lemma eventLoop_sums:
  "eventLoop P st evs = Inr st' \<Longrightarrow>
     numberValidEvents st' = numberValidEvents st + length (showered P (rng st) evs) \<and>
     fullNGL1Loop st' = fullNGL1Loop st + (\<Sum>sh\<leftarrow>showered P (rng st) evs. ngl1Loop sh) \<and>
     fullNGL2Loop st' = fullNGL2Loop st + (\<Sum>sh\<leftarrow>showered P (rng st) evs. ngl2Loop sh) \<and>
     length (entries (fullResultLL st')) = length (entries (fullResultLL st)) \<and>
     errorHistCalc (fullResultLL st') = errorHistCalc (fullResultLL st) \<and>
     (\<forall>i < length (entries (fullResultLL st)).
        entries (fullResultLL st') ! i =
          entries (fullResultLL st) ! i + binSum (showered P (rng st) evs) i) \<and>
     shower st' = (if showered P (rng st) evs = [] then shower st
                   else Some (last (showered P (rng st) evs)))"
proof (induction evs arbitrary: st)
  case Nil
  then show ?case by (simp add: binSum_Nil)
next
  case (Cons ev evs)
  from Cons.prems obtain s where s: "loopBody P st ev = Inr s" and r: "eventLoop P s evs = Inr st'"
    by (auto split: sum.splits)
  note ih = Cons.IH[OF r]
  from loopBody_step[OF s, of evs] show ?case
  proof (elim disjE conjE exE)
    assume "showered P (rng st) (ev # evs) = showered P (rng s) evs"
      "numberValidEvents s = numberValidEvents st" "fullResultLL s = fullResultLL st"
       "fullNGL1Loop s = fullNGL1Loop st" "fullNGL2Loop s = fullNGL2Loop st" "shower s = shower st"
    with ih show ?thesis by simp
  next
    fix sh
    assume a: "showered P (rng st) (ev # evs) = sh # showered P (rng s) evs"
      "numberValidEvents s = numberValidEvents st + 1"
      "fullNGL1Loop s = fullNGL1Loop st + ngl1Loop sh"
      "fullNGL2Loop s = fullNGL2Loop st + ngl2Loop sh" "shower s = Some sh"
      and h: "Hist_iadd (fullResultLL st) (resLL sh) = Inr (fullResultLL s)"
    note hh = Hist_iadd_entries[OF h]
    show ?thesis unfolding a(1) using ih a(2-) hh by (auto simp: binSum_Cons)
  qed
qed

lemma initial_fields:
  "rng (initial c r) = r" "numberValidEvents (initial c r) = 0"
  "fullNGL1Loop (initial c r) = 0" "fullNGL2Loop (initial c r) = 0"
  "entries (fullResultLL (initial c r)) = replicate (nbins c) 0"
  "errorHistCalc (fullResultLL (initial c r)) = False"
  "shower (initial c r) = None" "printed (initial c r) = []" "eventWeight (initial c r) = 0"
  "numberEvents (initial c r) = 0"
  by (simp_all add: initial_def Hist_new_def)

lemma normalize_shower: "normalize st = Inr fin \<Longrightarrow> shower fin = shower st"
  by (auto simp: normalize_def split: if_splits)

section \<open>The worked examples, evaluated\<close>

lemma sqrt_values: "sqrt 2500 = 50" "sqrt 900 = 30" "sqrt 3600 = 60"
  by (rule real_sqrt_unique; simp)+

lemma quarter_turn_separated: "\<not> (pi / 2)\<^sup>2 < (2 / 5)\<^sup>2"
proof -
  have "2 / 5 \<le> pi / 2" using pi_ge_two by simp
  then have "(2 / 5)\<^sup>2 \<le> (pi / 2)\<^sup>2" by (rule power_mono) simp
  then show ?thesis by (rule leD)
qed

lemma rapidity_transverse:
  "rapidity (mkFourVector a x y 0) = (if a = 0 then PInf else Fin 0)"
  by (simp add: rapidity_def mkFourVector_def)

lemma valid_ee: "validEvent kinematics_std ev_ee = Inr True"
  using pi_ge_two
  by (simp add: quarter_turn_separated validEvent_def ev_ee_def electronBlock_def
      muonBlock_def neutrinoLoop_def globalCuts_def kinematics_std_def eT_std_def pT_std_def
      rapidity_transverse R2_std_def deltaPhi_def azimuth_def mkFourVector_def
      plus4_def dot4_def np_sqrt_def sqrt_values Let_def rapidity_def)

lemma valid_fourNeutrinos: "validEvent kinematics_std ev_fourNeutrinos = Inr True"
  using pi_ge_two
  by (simp add: quarter_turn_separated validEvent_def ev_fourNeutrinos_def ev_ee_def
      electronBlock_def muonBlock_def neutrinoLoop_def globalCuts_def kinematics_std_def
      eT_std_def pT_std_def rapidity_transverse R2_std_def deltaPhi_def azimuth_def
      mkFourVector_def plus4_def dot4_def np_sqrt_def sqrt_values Let_def rapidity_def)

lemma invalid_noTop: "validEvent K ev_noTop = Inr False"
  by (simp add: validEvent_def ev_noTop_def)

lemma weight_ee: "weight ev_ee = 3.37407" "weight ev_noTop = 3.37407"
  by (simp_all add: ev_noTop_def ev_ee_def)

lemma run_noTop:
  "loopBody params_stub (initial config_small 0) ev_noTop =
     Inr ((initial config_small 0)\<lparr>numberEvents := 1, eventWeight := 3.37407\<rparr>)"
  by (simp add: loopBody_def invalid_noTop weightCheck_def initial_def weight_ee Let_def)

lemma run_ee:
  "loopBody params_stub (initial config_small 0) ev_ee =
     Inr \<lparr>numberEvents = 1, numberValidEvents = 1, eventWeight = 3.37407,
          fullResultLL = \<lparr>h_nbins = 2, h_tmax = 0.1, errorHistCalc = False,
                          entries = [1, 1], squaredEntries = [0, 0]\<rparr>,
          fullNGL1Loop = - 1, fullNGL2Loop = 0,
          shower = Some \<lparr>resLL = \<lparr>h_nbins = 2, h_tmax = 0.1, errorHistCalc = True,
                                   entries = [1, 1], squaredEntries = [0, 0]\<rparr>,
                         ngl1Loop = - 1, ngl2Loop = 0\<rparr>,
          printed = [], rng = Suc 0\<rparr>"
  by (simp add: loopBody_def params_stub_def valid_ee weightCheck_def initial_def
      showerBlock_def shower_stub_def Hist_iadd_def sameShape_def Hist_new_def
      config_small_def Let_def weight_ee eval_nat_numeral)

lemma invalid_weighted: "validEvent K (ev_noTop_weighted w) = Inr False"
  by (simp add: validEvent_def ev_noTop_weighted_def ev_noTop_def)

lemma weight_weighted: "weight (ev_noTop_weighted w) = w"
  by (simp add: ev_noTop_weighted_def)

lemma loop_two:
  "eventLoop params_stub (initial config_small 0) [ev_ee, ev_ee] =
     Inr (stub_state 2 2 2 (- 3) 1 (stub_shower 1 (- 2) 1) 2)"
  by (simp add: loopBody_def params_stub_def valid_ee weightCheck_def initial_def
      showerBlock_def shower_stub_def Hist_iadd_def sameShape_def Hist_new_def
      config_small_def Let_def weight_ee stub_state_def stub_shower_def stub_hist_def
      eval_nat_numeral)

lemma showered_two:
  "showered params_stub 0 [ev_ee, ev_ee] = [stub_shower 1 (- 1) 0, stub_shower 1 (- 2) 1]"
  by (simp add: params_stub_def valid_ee shower_stub_def Hist_new_def
      config_small_def stub_shower_def stub_hist_def eval_nat_numeral)

lemma normalize_two:
  "normalize (stub_state 2 2 2 (- 3) 1 (stub_shower 1 (- 2) 1) 2) =
     Inr (stub_state 2 2 1 (- 3 / 2) (1 / 2) (stub_shower 1 (- 2) 1) 2)"
  by (simp add: normalize_def Hist_idiv_def stub_state_def stub_hist_def)

lemma py_round_values: "py_round (- 2) 4 = - 2" "py_round 3 4 = 3"
  by (simp_all add: py_round_def Let_def)

section \<open>C1: events with missing particle roles\<close>

text \<open>C1 as stated fails: an event without intermediate tops raises no error. The loop
  goes through its iteration, \<open>validEvent\<close> returns \<open>False\<close>, and the state afterwards
  counts one event and no valid event.\<close>

theorem C1_no_error_counterexample:
  "rolesMissing ev_noTop \<and>
   validEvent (kin params_stub) ev_noTop = Inr False \<and>
   loopBody params_stub (initial config_small 0) ev_noTop =
     Inr ((initial config_small 0)\<lparr>numberEvents := 1, eventWeight := 3.37407\<rparr>)"
proof -
  have m: "rolesMissing ev_noTop" by (simp add: rolesMissing_def ev_noTop_def)
  from m invalid_noTop[of "kin params_stub"] run_noTop show ?thesis by simp
qed

text \<open>C1 (amended). An event whose required particle roles are absent or whose
  multiplicities are wrong (no intermediate top, no outgoing bottom, neither outgoing
  electron nor muon, or a number of intermediate tops or of outgoing bottoms other than
  two) raises no error: \<open>validEvent\<close> returns \<open>False\<close> for it, the iteration only counts the
  event and checks its weight, and the loop goes on with the next event. Such an event is
  never handed to the shower: the showers of the run are those of the other events.\<close>

theorem C1_missing_roles_skipped:
  "rolesMissing ev \<Longrightarrow>
     validEvent (kin P) ev = Inr False \<and>
     loopBody P st ev = Inr (weightCheck (st\<lparr>numberEvents := numberEvents st + 1\<rparr>) ev) \<and>
     eventLoop P st (ev # evtFile) =
       eventLoop P (weightCheck (st\<lparr>numberEvents := numberEvents st + 1\<rparr>) ev) evtFile \<and>
     showered P (rng st) (ev # evtFile) = showered P (rng st) evtFile"
proof -
  assume m: "rolesMissing ev"
  have v: "validEvent (kin P) ev = Inr False" by (rule rolesMissing_invalid[OF m])
  from loopBody_invalid[OF v] v show ?thesis by simp
qed

theorem C1_missing_roles_skipped_witness:
  "rolesMissing ev_noTop \<and>
   validEvent (kin params_stub) ev_noTop = Inr False \<and>
   eventLoop params_stub (initial config_small 0) [ev_noTop, ev_ee] =
     eventLoop params_stub
       (weightCheck ((initial config_small 0)\<lparr>numberEvents := 1\<rparr>) ev_noTop) [ev_ee] \<and>
   showered params_stub 0 [ev_noTop, ev_ee] = showered params_stub 0 [ev_ee]"
proof -
  have m: "rolesMissing ev_noTop" by (simp add: rolesMissing_def ev_noTop_def)
  have r: "rng (initial config_small (0::nat)) = 0" "numberEvents (initial config_small (0::nat)) = 0"
    by (simp_all add: initial_def)
  from C1_missing_roles_skipped[OF m, of params_stub "initial config_small 0" "[ev_ee]"] m r
  show ?thesis by simp
qed

section \<open>C5: a weight mismatch warns and goes on\<close>

text \<open>C5 as stated fails when the reference weight is not positive: after a first event
  of weight \<open>-1\<close> the reference weight is \<open>-1\<close>, the second event has weight \<open>-2\<close>, and the
  iteration prints nothing.\<close>

theorem C5_nonpositive_reference_counterexample:
  "eventLoop params_stub (initial config_small 0) [ev_noTop_weighted (- 1)] =
     Inr ((initial config_small 0)\<lparr>numberEvents := 1, eventWeight := - 1\<rparr>) \<and>
   weight (ev_noTop_weighted (- 2)) \<noteq>
     eventWeight ((initial config_small (0::nat))\<lparr>numberEvents := 1, eventWeight := - 1\<rparr>) \<and>
   loopBody params_stub ((initial config_small 0)\<lparr>numberEvents := 1, eventWeight := - 1\<rparr>)
       (ev_noTop_weighted (- 2)) =
     Inr ((initial config_small 0)\<lparr>numberEvents := 2, eventWeight := - 2, printed := []\<rparr>)"
  by (simp add: loopBody_def invalid_weighted weight_weighted weightCheck_def initial_def Let_def)

text \<open>C5 (amended). When the reference weight is positive and an event's weight differs
  from it, the iteration prints \<^verbatim>\<open>Warning: events not of equal weight!\<close> and goes on: its
  outcome is that of the same iteration with a matching reference weight, error for error,
  but for the printed line and the reference weight, which is kept. So the event is still
  checked by \<open>validEvent\<close>, showered if valid and its results accumulated, and the mismatch
  itself never aborts the loop.\<close>

theorem C5_weight_mismatch_warns_and_continues:
  assumes "eventWeight st > 0" and "eventWeight st \<noteq> weight ev"
  shows "loopBody P st ev =
      map_sum id (\<lambda>s. s\<lparr>eventWeight := eventWeight st, printed := printed st @ [warning]\<rparr>)
        (loopBody P (st\<lparr>eventWeight := weight ev\<rparr>) ev) \<and>
     (validEvent (kin P) ev = Inr True \<longrightarrow>
        loopBody P st ev =
          showerBlock P (st\<lparr>numberEvents := numberEvents st + 1,
                            printed := printed st @ [warning]\<rparr>) ev) \<and>
     (validEvent (kin P) ev = Inr False \<longrightarrow>
        loopBody P st ev =
          Inr (st\<lparr>numberEvents := numberEvents st + 1, printed := printed st @ [warning]\<rparr>))"
proof -
  let ?w = "st\<lparr>numberEvents := numberEvents st + 1\<rparr>"
  have a: "weightCheck ?w ev = st\<lparr>numberEvents := numberEvents st + 1, printed := printed st @ [warning]\<rparr>"
    using assms by (simp add: weightCheck_def Let_def)
  have b: "weightCheck (st\<lparr>eventWeight := weight ev, numberEvents := numberEvents st + 1\<rparr>) ev
        = ?w\<lparr>eventWeight := weight ev\<rparr>"
    by (simp add: weightCheck_def Let_def)
  have c: "showerBlock P (st\<lparr>numberEvents := numberEvents st + 1, printed := printed st @ [warning]\<rparr>) ev
          = map_sum id (\<lambda>s. s\<lparr>eventWeight := eventWeight st, printed := printed st @ [warning]\<rparr>)
              (showerBlock P (?w\<lparr>eventWeight := weight ev\<rparr>) ev)"
    by (auto simp: showerBlock_def Let_def split: sum.splits prod.splits)
  have 1: "loopBody P st ev =
      map_sum id (\<lambda>s. s\<lparr>eventWeight := eventWeight st, printed := printed st @ [warning]\<rparr>)
        (loopBody P (st\<lparr>eventWeight := weight ev\<rparr>) ev)"
  proof (cases "validEvent (kin P) ev")
    case (Inl err) then show ?thesis by (simp add: loopBody_def Let_def)
  next
    case (Inr valid)
    with a b c show ?thesis by (cases valid) (simp_all add: loopBody_def Let_def)
  qed
  have 2: "validEvent (kin P) ev = Inr True \<longrightarrow>
        loopBody P st ev =
          showerBlock P (st\<lparr>numberEvents := numberEvents st + 1,
                            printed := printed st @ [warning]\<rparr>) ev"
    using a by (simp add: loopBody_valid)
  have 3: "validEvent (kin P) ev = Inr False \<longrightarrow>
        loopBody P st ev =
          Inr (st\<lparr>numberEvents := numberEvents st + 1, printed := printed st @ [warning]\<rparr>)"
    using a by (simp add: loopBody_invalid)
  from 1 2 3 show ?thesis by blast
qed

theorem C5_weight_mismatch_warns_and_continues_witness:
  "eventWeight ((initial config_small (0::nat))\<lparr>numberEvents := 1, eventWeight := 2\<rparr>) > 0 \<and>
   eventWeight ((initial config_small (0::nat))\<lparr>numberEvents := 1, eventWeight := 2\<rparr>)
     \<noteq> weight ev_ee \<and>
   validEvent (kin params_stub) ev_ee = Inr True \<and>
   loopBody params_stub ((initial config_small 0)\<lparr>numberEvents := 1, eventWeight := 2\<rparr>) ev_ee =
     Inr \<lparr>numberEvents = 2, numberValidEvents = 1, eventWeight = 2,
          fullResultLL = \<lparr>h_nbins = 2, h_tmax = 0.1, errorHistCalc = False,
                          entries = [1, 1], squaredEntries = [0, 0]\<rparr>,
          fullNGL1Loop = - 1, fullNGL2Loop = 0,
          shower = Some \<lparr>resLL = \<lparr>h_nbins = 2, h_tmax = 0.1, errorHistCalc = True,
                                   entries = [1, 1], squaredEntries = [0, 0]\<rparr>,
                         ngl1Loop = - 1, ngl2Loop = 0\<rparr>,
          printed = [warning], rng = Suc 0\<rparr>"
proof -
  let ?st = "(initial config_small (0::nat))\<lparr>numberEvents := 1, eventWeight := 2\<rparr>"
  have h1: "eventWeight ?st > 0" by simp
  have h2: "eventWeight ?st \<noteq> weight ev_ee" by (simp add: weight_ee)
  have k: "kin params_stub = kinematics_std" by (simp add: params_stub_def)
  from C5_weight_mismatch_warns_and_continues[OF h1 h2, of params_stub,
      THEN conjunct2, THEN conjunct1] valid_ee k
  have "loopBody params_stub ?st ev_ee =
          showerBlock params_stub (?st\<lparr>numberEvents := numberEvents ?st + 1,
                            printed := printed ?st @ [warning]\<rparr>) ev_ee" by simp
  then show ?thesis using h2 valid_ee k
    by (simp add: initial_def showerBlock_def params_stub_def shower_stub_def
      Hist_iadd_def sameShape_def Hist_new_def config_small_def Let_def eval_nat_numeral)
qed

section \<open>C6: the stub of the outside region and its replacement\<close>



section \<open>C7: the gate of the shower\<close>

text \<open>C7 as stated fails: \<open>validEvent\<close> returns \<open>True\<close> for an event with four outgoing
  neutrinos, two electron neutrinos and two muon neutrinos, when there is no outgoing
  muon: the muon neutrinos are not looked at.\<close>

theorem C7_four_neutrinos_counterexample:
  "validEvent kinematics_std ev_fourNeutrinos = Inr True \<and>
   length (neutrinos ev_fourNeutrinos) = 4"
proof -
  have "length (neutrinos ev_fourNeutrinos) = 4"
    by (simp add: neutrinos_def ev_fourNeutrinos_def ev_ee_def roleList_def)
  with valid_fourNeutrinos show ?thesis by simp
qed

text \<open>C7 (amended). In every iteration the shower is invoked and its outputs accumulated
  if and only if \<open>validEvent\<close> returns \<open>True\<close>: then the iteration is the shower block, and
  when it completes, the shower has run on the event and its \<open>resLL\<close>, \<open>ngl1Loop\<close> and
  \<open>ngl2Loop\<close> have been added to the accumulators; when \<open>validEvent\<close> returns \<open>False\<close> the
  accumulators, the count of valid events, the variable \<open>shower\<close> and the random source
  are unchanged; when it raises, so does the iteration. \<open>validEvent\<close> returns \<open>True\<close> only
  if the event has exactly two intermediate tops, exactly two outgoing bottoms, exactly two
  outgoing charged leptons (electrons and muons) and exactly two collected neutrinos (the
  electron neutrinos when \<open>outgoingElectron\<close> is present and the muon neutrinos when
  \<open>outgoingMuon\<close> is present), and every outgoing bottom has \<open>pT \<ge> 25\<close>, \<open>|rap| \<le> 2.4\<close> and
  \<open>R2 \<ge> 0.4\<^sup>2\<close> to each charged lepton.\<close>

theorem C7_validEvent_gate:
  "(validEvent (kin P) ev = Inr True \<longrightarrow>
      loopBody P st ev =
        showerBlock P (weightCheck (st\<lparr>numberEvents := numberEvents st + 1\<rparr>) ev) ev \<and>
      (\<forall>st'. loopBody P st ev = Inr st' \<longrightarrow>
         (\<exists>sh r'. runShower P (cfg P) ev (regionOf (kin P) ev) (rng st) = Inr (sh, r') \<and>
            Hist_iadd (fullResultLL st) (resLL sh) = Inr (fullResultLL st') \<and>
            fullNGL1Loop st' = fullNGL1Loop st + ngl1Loop sh \<and>
            fullNGL2Loop st' = fullNGL2Loop st + ngl2Loop sh \<and>
            numberValidEvents st' = numberValidEvents st + 1 \<and>
            shower st' = Some sh \<and> rng st' = r'))) \<and>
   (validEvent (kin P) ev = Inr False \<longrightarrow>
      (\<exists>st'. loopBody P st ev = Inr st' \<and>
         fullResultLL st' = fullResultLL st \<and> fullNGL1Loop st' = fullNGL1Loop st \<and>
         fullNGL2Loop st' = fullNGL2Loop st \<and>
         numberValidEvents st' = numberValidEvents st \<and>
         shower st' = shower st \<and> rng st' = rng st)) \<and>
   (\<forall>err. validEvent (kin P) ev = Inl err \<longrightarrow> loopBody P st ev = Inl err) \<and>
   (validEvent (kin P) ev = Inr True \<longrightarrow>
      intermediateTop ev \<noteq> None \<and> length (roleList (intermediateTop ev)) = 2 \<and>
      outgoingBottom ev \<noteq> None \<and> length (roleList (outgoingBottom ev)) = 2 \<and>
      length (chargedLeptons ev) = 2 \<and> length (collectedNeutrinos ev) = 2 \<and>
      list_all (bottomCuts (kin P) (chargedLeptons ev)) (roleList (outgoingBottom ev)))"
proof -
  let ?s = "weightCheck (st\<lparr>numberEvents := numberEvents st + 1\<rparr>) ev"
  have a: "validEvent (kin P) ev = Inr True \<longrightarrow>
      loopBody P st ev = showerBlock P ?s ev \<and>
      (\<forall>st'. loopBody P st ev = Inr st' \<longrightarrow>
         (\<exists>sh r'. runShower P (cfg P) ev (regionOf (kin P) ev) (rng st) = Inr (sh, r') \<and>
            Hist_iadd (fullResultLL st) (resLL sh) = Inr (fullResultLL st') \<and>
            fullNGL1Loop st' = fullNGL1Loop st + ngl1Loop sh \<and>
            fullNGL2Loop st' = fullNGL2Loop st + ngl2Loop sh \<and>
            numberValidEvents st' = numberValidEvents st + 1 \<and>
            shower st' = Some sh \<and> rng st' = r'))"
  proof (intro impI conjI allI)
    assume v: "validEvent (kin P) ev = Inr True"
    show l: "loopBody P st ev = showerBlock P ?s ev" by (rule loopBody_valid[OF v])
    fix st' assume "loopBody P st ev = Inr st'"
    with l have "showerBlock P ?s ev = Inr st'" by simp
    from showerBlock_Inr[OF this] obtain sh r' where
      r: "runShower P (cfg P) ev (regionOf (kin P) ev) (rng ?s) = Inr (sh, r')"
      and h: "Hist_iadd (fullResultLL ?s) (resLL sh) = Inr (fullResultLL st')"
      and e: "st' = ?s\<lparr>numberValidEvents := numberValidEvents ?s + 1,
                    fullResultLL := fullResultLL st',
                    fullNGL1Loop := fullNGL1Loop ?s + ngl1Loop sh,
                    fullNGL2Loop := fullNGL2Loop ?s + ngl2Loop sh,
                    shower := Some sh, rng := r'\<rparr>"
      by blast
    have f1: "fullNGL1Loop st' = fullNGL1Loop ?s + ngl1Loop sh" by (subst e) simp
    have f2: "fullNGL2Loop st' = fullNGL2Loop ?s + ngl2Loop sh" by (subst e) simp
    have f3: "numberValidEvents st' = numberValidEvents ?s + 1" by (subst e) simp
    have f4: "shower st' = Some sh" by (subst e) simp
    have f5: "rng st' = r'" by (subst e) simp
    from r h f1 f2 f3 f4 f5
    show "\<exists>sh r'. runShower P (cfg P) ev (regionOf (kin P) ev) (rng st) = Inr (sh, r') \<and>
            Hist_iadd (fullResultLL st) (resLL sh) = Inr (fullResultLL st') \<and>
            fullNGL1Loop st' = fullNGL1Loop st + ngl1Loop sh \<and>
            fullNGL2Loop st' = fullNGL2Loop st + ngl2Loop sh \<and>
            numberValidEvents st' = numberValidEvents st + 1 \<and>
            shower st' = Some sh \<and> rng st' = r'"
      by (auto simp: weightCheck_fields)
  qed
  have b: "validEvent (kin P) ev = Inr False \<longrightarrow>
      (\<exists>st'. loopBody P st ev = Inr st' \<and>
         fullResultLL st' = fullResultLL st \<and> fullNGL1Loop st' = fullNGL1Loop st \<and>
         fullNGL2Loop st' = fullNGL2Loop st \<and>
         numberValidEvents st' = numberValidEvents st \<and>
         shower st' = shower st \<and> rng st' = rng st)"
    by (auto simp: loopBody_invalid weightCheck_fields)
  have c: "\<forall>err. validEvent (kin P) ev = Inl err \<longrightarrow> loopBody P st ev = Inl err"
    by (simp add: loopBody_def Let_def)
  from a b c validEvent_True[of "kin P" ev] show ?thesis by blast
qed

theorem C7_validEvent_gate_witness:
  "validEvent (kin params_stub) ev_ee = Inr True \<and>
   validEvent (kin params_stub) ev_noTop = Inr False \<and>
   loopBody params_stub (initial config_small 0) ev_ee =
     showerBlock params_stub
       (weightCheck ((initial config_small 0)\<lparr>numberEvents := 1\<rparr>) ev_ee) ev_ee \<and>
   length (chargedLeptons ev_ee) = 2 \<and> length (collectedNeutrinos ev_ee) = 2 \<and>
   list_all (bottomCuts kinematics_std (chargedLeptons ev_ee)) (roleList (outgoingBottom ev_ee))"
proof -
  have k: "kin params_stub = kinematics_std" by (simp add: params_stub_def)
  have n: "numberEvents (initial config_small (0::nat)) = 0" by (simp add: initial_def)
  from C7_validEvent_gate[of params_stub ev_ee "initial config_small 0"] valid_ee
    invalid_noTop[of kinematics_std] k n
  show ?thesis by simp
qed

section \<open>C8: the outside region of the dipole notebook\<close>

text \<open>C8. The predicate of the dipole notebook is true of a four-vector \<open>v\<close> if and only if
  \<open>0 \<le> |v.rap| < 0.8\<close>, whatever the rapidity of a four-vector is, and so is the region's
  method once the predicate is bound to it. The light-like vector \<open>(1,0,1,0)\<close> along the
  y-axis has rapidity 0 and is outside (\<open>True\<close>); the light-like vector \<open>(1,0,0,1)\<close> along the
  z-axis is inside (\<open>False\<close>).\<close>

theorem C8_outside_dipole:
  "(outside_dipole K self v \<longleftrightarrow> xge (xabs (rap K v)) 0 \<and> xlt (xabs (rap K v)) 0.8) \<and>
   outside (outsideRegion_dipole K) v =
     Inr (xge (xabs (rap K v)) 0 \<and> xlt (xabs (rap K v)) 0.8) \<and>
   rapidity fvOut = Fin 0 \<and>
   outside (outsideRegion_dipole kinematics_std) fvOut = Inr True \<and>
   outside (outsideRegion_dipole kinematics_std) fvIn = Inr False"
  by (auto simp: outside_dipole_def outside_def outsideRegion_dipole_def rebind_def
      OutsideRegion_new_def kinematics_std_def rapidity_def fvOut_def fvIn_def
      mkFourVector_def Let_def)

section \<open>C9: a reference weight that is not positive\<close>

text \<open>C9. In an iteration in which the reference weight is not strictly positive, it is
  overwritten with the weight of the current event before the comparison, so the
  comparison finds them equal and nothing is printed. Hence a run over events whose
  weights are all non-positive, started with a non-positive reference weight (the
  notebook starts with 0), prints no warning, whether or not the weights differ.\<close>

theorem C9_nonpositive_weights_never_warn:
  "(\<not> eventWeight st > 0 \<longrightarrow> weightCheck st ev = st\<lparr>eventWeight := weight ev\<rparr>) \<and>
   (eventWeight st \<le> 0 \<and> (\<forall>ev\<in>set evtFile. weight ev \<le> 0) \<and> eventLoop P st evtFile = Inr st'
      \<longrightarrow> printed st' = printed st) \<and>
   ((\<forall>ev\<in>set evtFile. weight ev \<le> 0) \<and> eventLoop P (initial c r) evtFile = Inr st'
      \<longrightarrow> printed st' = [])"
proof -
  have a: "\<not> eventWeight st > 0 \<longrightarrow> weightCheck st ev = st\<lparr>eventWeight := weight ev\<rparr>"
    by (simp add: weightCheck_def Let_def)
  have i: "eventWeight (initial c r) \<le> 0" "printed (initial c r) = []"
    by (simp_all add: initial_def)
  from a eventLoop_nonpositive[of st evtFile P st']
    eventLoop_nonpositive[OF i(1), of evtFile P st'] i(2)
  show ?thesis by auto
qed

theorem C9_nonpositive_weights_never_warn_witness:
  "weight (ev_noTop_weighted 0) \<le> 0 \<and> weight (ev_noTop_weighted (- 3)) \<le> 0 \<and>
   weight (ev_noTop_weighted 0) \<noteq> weight (ev_noTop_weighted (- 3)) \<and>
   eventLoop params_stub (initial config_small 0)
       [ev_noTop_weighted 0, ev_noTop_weighted (- 3)] =
     Inr ((initial config_small 0)\<lparr>numberEvents := 2, eventWeight := - 3\<rparr>) \<and>
   printed ((initial config_small (0::nat))\<lparr>numberEvents := 2, eventWeight := - 3\<rparr>) = []"
proof -
  have l: "eventLoop params_stub (initial config_small 0)
       [ev_noTop_weighted 0, ev_noTop_weighted (- 3)] =
     Inr ((initial config_small 0)\<lparr>numberEvents := 2, eventWeight := - 3\<rparr>)"
    by (simp add: loopBody_def invalid_weighted weight_weighted weightCheck_def initial_def
        Let_def)
  have w: "\<forall>ev\<in>set [ev_noTop_weighted 0, ev_noTop_weighted (- 3)]. weight ev \<le> 0"
    by (simp add: weight_weighted)
  from C9_nonpositive_weights_never_warn[where evtFile = "[ev_noTop_weighted 0, ev_noTop_weighted (- 3)]"
      and P = params_stub and c = config_small and r = 0
      and st' = "(initial config_small 0)\<lparr>numberEvents := 2, eventWeight := - 3\<rparr>"] l w
  have "printed ((initial config_small (0::nat))\<lparr>numberEvents := 2, eventWeight := - 3\<rparr>) = []"
    by blast
  with l show ?thesis by (simp add: weight_weighted)
qed

section \<open>C10: the displayed loop coefficients\<close>

text \<open>C10. The one-loop and two-loop values displayed after the loop are
  \<^verbatim>\<open>round(shower.ngl1Loop,4)\<close> and \<^verbatim>\<open>round(shower.ngl2Loop+0.5*shower.ngl1Loop**2,4)\<close> of the
  variable \<open>shower\<close>: they do not depend on \<open>fullResultLL\<close>, \<open>fullNGL1Loop\<close> or \<open>fullNGL2Loop\<close>,
  and after a run with a valid event and the division they are computed from the shower
  of the last valid event alone, not from the batch averages.\<close>

theorem C10_display_reads_last_shower:
  "displayOneLoop (st\<lparr>fullResultLL := h, fullNGL1Loop := a, fullNGL2Loop := b\<rparr>) = displayOneLoop st \<and>
   displayTwoLoop (st\<lparr>fullResultLL := h, fullNGL1Loop := a, fullNGL2Loop := b\<rparr>) = displayTwoLoop st \<and>
   (eventLoop P st evtFile = Inr st' \<and> normalize st' = Inr fin \<and> showered P (rng st) evtFile \<noteq> []
     \<longrightarrow> displayOneLoop fin = Inr (py_round (ngl1Loop (last (showered P (rng st) evtFile))) 4) \<and>
         displayTwoLoop fin =
           Inr (py_round (ngl2Loop (last (showered P (rng st) evtFile))
                          + 0.5 * (ngl1Loop (last (showered P (rng st) evtFile)))\<^sup>2) 4))"
proof -
  have "eventLoop P st evtFile = Inr st' \<and> normalize st' = Inr fin \<and> showered P (rng st) evtFile \<noteq> []
     \<longrightarrow> shower fin = Some (last (showered P (rng st) evtFile))"
    using eventLoop_sums[of P st evtFile st'] normalize_shower[of st' fin] by auto
  then show ?thesis by (auto simp: displayOneLoop_def displayTwoLoop_def)
qed

theorem C10_display_reads_last_shower_witness:
  "eventLoop params_stub (initial config_small 0) [ev_ee, ev_ee] =
     Inr (stub_state 2 2 2 (- 3) 1 (stub_shower 1 (- 2) 1) 2) \<and>
   normalize (stub_state 2 2 2 (- 3) 1 (stub_shower 1 (- 2) 1) 2) =
     Inr (stub_state 2 2 1 (- 3 / 2) (1 / 2) (stub_shower 1 (- 2) 1) 2) \<and>
   showered params_stub 0 [ev_ee, ev_ee] = [stub_shower 1 (- 1) 0, stub_shower 1 (- 2) 1] \<and>
   displayOneLoop (stub_state 2 2 1 (- 3 / 2) (1 / 2) (stub_shower 1 (- 2) 1) 2) = Inr (- 2) \<and>
   displayTwoLoop (stub_state 2 2 1 (- 3 / 2) (1 / 2) (stub_shower 1 (- 2) 1) 2) = Inr 3 \<and>
   fullNGL1Loop (stub_state 2 2 1 (- 3 / 2) (1 / 2) (stub_shower 1 (- 2) 1) 2) = - 3 / 2 \<and>
   fullNGL2Loop (stub_state 2 2 1 (- 3 / 2) (1 / 2) (stub_shower 1 (- 2) 1) 2) = 1 / 2"
proof -
  have l: "ngl1Loop (stub_shower 1 (- 2) 1) = - 2" "ngl2Loop (stub_shower 1 (- 2) 1) = 1"
    by (simp_all add: stub_shower_def)
  have r: "rng (initial config_small (0::nat)) = 0" by (simp add: initial_def)
  have f: "fullNGL1Loop (stub_state 2 2 1 (- 3 / 2) (1 / 2) (stub_shower 1 (- 2) 1) 2) = - 3 / 2"
    "fullNGL2Loop (stub_state 2 2 1 (- 3 / 2) (1 / 2) (stub_shower 1 (- 2) 1) 2) = 1 / 2"
    by (simp_all add: stub_state_def)
  from C10_display_reads_last_shower[where st = "initial config_small 0" and P = params_stub
      and evtFile = "[ev_ee, ev_ee]"
      and st' = "stub_state 2 2 2 (- 3) 1 (stub_shower 1 (- 2) 1) 2"
      and fin = "stub_state 2 2 1 (- 3 / 2) (1 / 2) (stub_shower 1 (- 2) 1) 2"]
    loop_two normalize_two showered_two r l f
  show ?thesis by (simp add: py_round_values)
qed

end
